theory Spec2Isabelle
  imports Main "HOL-Library.Sublist"
begin

section \<open>Strings and exceptions\<close>

text \<open>
  A Python \<open>str\<close> is modelled as a \<open>string\<close>, a list of characters with code points
  0 to 255. Exceptions are values: a function that can raise returns \<open>exn + 'a\<close>, with
  \<open>Inl\<close> the exception raised.
\<close>

datatype exn =
    SitemapObjError string
  | ValueError
  | IndexError
  | AttributeError
  | FileNotFoundError

definition code :: "char \<Rightarrow> nat" where
  "code c = of_char c"

text \<open>Lower-casing as \<open>re\<close> does it under \<open>IGNORECASE\<close>. Below code point 256 only the
  letters A to Z have an ASCII lower-case form, and the patterns of this program are ASCII.\<close>

definition lower :: "char \<Rightarrow> char" where
  "lower c = (if 65 \<le> code c \<and> code c \<le> 90 then char_of (code c + 32) else c)"

text \<open>Python's Unicode white space below code point 256: tab, line feed, vertical tab,
  form feed, carriage return, the separators 28 to 31, space, NEL (133) and the
  no-break space (160).\<close>

definition isspace :: "char \<Rightarrow> bool" where
  "isspace c = (code c \<in> {9, 10, 11, 12, 13, 28, 29, 30, 31, 32, 133, 160})"

definition isdigit :: "char \<Rightarrow> bool" where
  "isdigit c = (48 \<le> code c \<and> code c \<le> 57)"

section \<open>Regular expressions as module \<open>re\<close> matches them\<close>

text \<open>
  The members of a character set \<open>[...]\<close>: a single character, a range \<open>a-z\<close>, the
  category \<open>\d\<close> and the category \<open>\S\<close>.
\<close>

datatype citem = Chr char | Range char char | CatDigit | CatNotSpace

text \<open>
  The patterns of this program use literals, sets, concatenation, alternation, the
  repetition \<open>{m,n}\<close> (with \<open>?\<close> being \<open>{0,1}\<close>, \<open>+\<close> being \<open>{1,}\<close> and \<open>{m,}\<close> having no
  upper bound) and the anchors \<open>^\<close> and \<open>$\<close>.
\<close>

datatype regex =
    Lit string
  | In "citem list"
  | Cat regex regex
  | Or regex regex
  | Repeat nat "nat option" regex
  | Bol
  | Eol

definition Opt :: "regex \<Rightarrow> regex" where
  "Opt r = Repeat 0 (Some 1) r"

definition Plus :: "regex \<Rightarrow> regex" where
  "Plus r = Repeat 1 None r"

definition seqs :: "regex list \<Rightarrow> regex" where
  "seqs rs = foldr Cat rs (Lit [])"

text \<open>Under \<open>IGNORECASE\<close> the subject character is lower-cased and compared with the
  lower-cased pattern character; a range is lower-cased member by member. The categories
  are tested on the lower-cased character, which changes neither of them.\<close>

definition lit_eq :: "bool \<Rightarrow> char \<Rightarrow> char \<Rightarrow> bool" where
  "lit_eq ic a c = (if ic then lower a = lower c else a = c)"

definition range_chars :: "char \<Rightarrow> char \<Rightarrow> char list" where
  "range_chars a b = map char_of [code a ..< Suc (code b)]"

definition in_range :: "bool \<Rightarrow> char \<Rightarrow> char \<Rightarrow> char \<Rightarrow> bool" where
  "in_range ic a b c =
     (if ic then \<exists>x \<in> set (range_chars a b). lower x = lower c
      else code a \<le> code c \<and> code c \<le> code b)"

fun in_item :: "bool \<Rightarrow> citem \<Rightarrow> char \<Rightarrow> bool" where
  "in_item ic (Chr a) c = lit_eq ic a c"
| "in_item ic (Range a b) c = in_range ic a b c"
| "in_item ic CatDigit c = isdigit (if ic then lower c else c)"
| "in_item ic CatNotSpace c = (\<not> isspace (if ic then lower c else c))"

definition in_set :: "bool \<Rightarrow> citem list \<Rightarrow> char \<Rightarrow> bool" where
  "in_set ic items c = list_ex (\<lambda>i. in_item ic i c) items"

text \<open>
  The matcher returns every remainder of the subject that a match of the pattern can
  leave, which is what the backtracking search of \<open>re\<close> explores; \<open>subj\<close> is the whole
  subject, for \<open>^\<close>.
\<close>

primrec lit_steps :: "bool \<Rightarrow> string \<Rightarrow> string \<Rightarrow> string list" where
  "lit_steps ic [] s = [s]"
| "lit_steps ic (a # w) s =
     (case s of [] \<Rightarrow> [] | c # t \<Rightarrow> if lit_eq ic a c then lit_steps ic w t else [])"

text \<open>\<open>rep f m n s\<close>: between \<open>m\<close> and \<open>n\<close> rounds of \<open>f\<close>, more rounds first.\<close>

primrec rep :: "(string \<Rightarrow> string list) \<Rightarrow> nat \<Rightarrow> nat \<Rightarrow> string \<Rightarrow> string list" where
  "rep f m 0 s = (if m = 0 then [s] else [])"
| "rep f m (Suc n) s =
     concat (map (rep f (m - 1) n) (f s)) @ (if m = 0 then [s] else [])"

text \<open>A repetition with no upper bound never needs more than \<open>m\<close> rounds plus one round
  for every character of the subject: a round that consumes nothing adds no remainder.\<close>

primrec re_steps :: "regex \<Rightarrow> bool \<Rightarrow> string \<Rightarrow> string \<Rightarrow> string list" where
  "re_steps (Lit w) ic subj s = lit_steps ic w s"
| "re_steps (In items) ic subj s =
     (case s of [] \<Rightarrow> [] | c # t \<Rightarrow> if in_set ic items c then [t] else [])"
| "re_steps (Cat r1 r2) ic subj s =
     concat (map (re_steps r2 ic subj) (re_steps r1 ic subj s))"
| "re_steps (Or r1 r2) ic subj s = re_steps r1 ic subj s @ re_steps r2 ic subj s"
| "re_steps (Repeat m n r) ic subj s =
     rep (re_steps r ic subj) m (case n of Some k \<Rightarrow> k | None \<Rightarrow> m + length s) s"
| "re_steps Bol ic subj s = (if s = subj then [s] else [])"
| "re_steps Eol ic subj s = (if s = [] \<or> s = [CHR 0x0A] then [s] else [])"

text \<open>\<open>pattern.match(s)\<close> is not \<open>None\<close>: the pattern matches at the start of \<open>s\<close>.\<close>

definition re_match :: "bool \<Rightarrow> regex \<Rightarrow> string \<Rightarrow> bool" where
  "re_match ic r s = (re_steps r ic s s \<noteq> [])"

section \<open>utils.py\<close>

definition alnum :: "citem list" where
  "alnum = [Range CHR ''A'' CHR ''Z'', Range CHR ''0'' CHR ''9'']"

definition alnum_hyphen :: "citem list" where
  "alnum_hyphen = [Range CHR ''A'' CHR ''Z'', Range CHR ''0'' CHR ''9'', Chr CHR ''-'']"

text \<open>\<^verbatim>\<open>(?:[A-Z0-9](?:[A-Z0-9-]{0,61}[A-Z0-9])?\.)+(?:[A-Z]{2,6}\.?|[A-Z0-9-]{2,}\.?)\<close>\<close>

definition re_domain :: regex where
  "re_domain =
     Cat (Plus (seqs [In alnum,
                      Opt (Cat (Repeat 0 (Some 61) (In alnum_hyphen)) (In alnum)),
                      Lit ''.'']))
         (Or (Cat (Repeat 2 (Some 6) (In [Range CHR ''A'' CHR ''Z''])) (Opt (Lit ''.'')))
             (Cat (Repeat 2 None (In alnum_hyphen)) (Opt (Lit ''.''))))"

text \<open>\<^verbatim>\<open>\d{1,3}\.\d{1,3}\.\d{1,3}\.\d{1,3}\<close>\<close>

definition re_ip :: regex where
  "re_ip = seqs [Repeat 1 (Some 3) (In [CatDigit]), Lit ''.'',
                 Repeat 1 (Some 3) (In [CatDigit]), Lit ''.'',
                 Repeat 1 (Some 3) (In [CatDigit]), Lit ''.'',
                 Repeat 1 (Some 3) (In [CatDigit])]"

text \<open>The pattern of \<open>is_url_valid\<close>, compiled with \<open>re.IGNORECASE\<close>:
  \<^verbatim>\<open>^(?:http)s?://(?:DOMAIN|localhost|IP)(?::\d+)?(?:/?|[/?]\S+)$\<close>\<close>

definition url_validator :: regex where
  "url_validator =
     seqs [Bol, Lit ''http'', Opt (Lit ''s''), Lit ''://'',
           Or re_domain (Or (Lit ''localhost'') re_ip),
           Opt (Cat (Lit '':'') (Plus (In [CatDigit]))),
           Or (Opt (Lit ''/'')) (Cat (In [Chr CHR ''/'', Chr CHR ''?'']) (Plus (In [CatNotSpace]))),
           Eol]"

definition is_url_valid :: "string \<Rightarrow> bool" where
  "is_url_valid url = re_match True url_validator url"

section \<open>sitemap\_obj.py: SitemapObj\<close>

text \<open>The last-modified time is kept as the parser returned it; \<open>'t\<close> is the type of
  \<open>datetime\<close> values.\<close>

record 't SitemapObj =
  url :: string
  last_mod :: "'t option"

text \<open>The values \<open>__eq__\<close> can be handed: a \<open>str\<close>, a \<open>SitemapObj\<close>, or something else.\<close>

datatype 't py_value = PyStr string | PyObj "'t SitemapObj" | PyNone

fun isinstance_str :: "'t py_value \<Rightarrow> bool" where
  "isinstance_str (PyStr s) = True"
| "isinstance_str v = False"

text \<open>\<open>other.url\<close>: a \<open>str\<close> has no such attribute.\<close>

fun attr_url :: "'t py_value \<Rightarrow> exn + string" where
  "attr_url (PyObj ob) = Inr (url ob)"
| "attr_url v = Inl AttributeError"

text \<open>\<open>SitemapObj.__eq__\<close>: both branches test \<open>isinstance(other, str)\<close>.\<close>

definition SitemapObj_eq :: "'t SitemapObj \<Rightarrow> 't py_value \<Rightarrow> exn + bool" where
  "SitemapObj_eq self other =
     (if isinstance_str other then
        (case other of PyStr s \<Rightarrow> Inr (url self = s) | _ \<Rightarrow> Inl AttributeError)
      else if isinstance_str other then
        (case attr_url other of Inl e \<Rightarrow> Inl e | Inr u \<Rightarrow> Inr (url self = u))
      else Inl (SitemapObjError ''Uncomparable types''))"

section \<open>urllib.parse.urlparse\<close>

text \<open>
  The program reads the \<open>scheme\<close> and the \<open>netloc\<close> of a parsed URL. The library splits
  off a scheme (the text before the first colon, when it is \<open>http\<close>, or is made of
  scheme characters and what follows is not a port number), then takes as netloc what
  stands between a leading \<open>//\<close> and the next \<open>/\<close>, \<open>?\<close> or \<open>#\<close>. A netloc with one
  square bracket and not the other raises \<open>ValueError\<close>.
\<close>

record ParseResult =
  p_scheme :: string
  p_netloc :: string

definition scheme_char :: "char \<Rightarrow> bool" where
  "scheme_char c =
     ((97 \<le> code c \<and> code c \<le> 122) \<or> (65 \<le> code c \<and> code c \<le> 90) \<or> isdigit c
      \<or> c = CHR ''+'' \<or> c = CHR ''-'' \<or> c = CHR ''.'')"

definition splitnetloc :: "string \<Rightarrow> string" where
  "splitnetloc u =
     takeWhile (\<lambda>c. c \<noteq> CHR ''/'' \<and> c \<noteq> CHR ''?'' \<and> c \<noteq> CHR ''#'') (drop 2 u)"

definition urlparse :: "string \<Rightarrow> exn + ParseResult" where
  "urlparse u =
     (let pre = takeWhile (\<lambda>c. c \<noteq> CHR '':'') u;
          rest = drop (Suc (length pre)) u;
          has_scheme =
            (length pre < length u \<and> pre \<noteq> [] \<and>
             (pre = ''http'' \<or>
              (list_all scheme_char pre \<and> (rest = [] \<or> list_ex (\<lambda>c. \<not> isdigit c) rest))));
          body = (if has_scheme then rest else u);
          nl = (if take 2 body = ''//'' then splitnetloc body else [])
      in if (CHR ''['' \<in> set nl) \<noteq> (CHR '']'' \<in> set nl) then Inl ValueError
         else Inr \<lparr>p_scheme = (if has_scheme then map lower pre else []), p_netloc = nl\<rparr>)"

section \<open>sitemap\_obj.py: validate\_update\_url\<close>

text \<open>\<open>url.split("#")[0]\<close>\<close>

definition split_hash :: "string \<Rightarrow> string" where
  "split_hash u = takeWhile (\<lambda>c. c \<noteq> CHR ''#'') u"

text \<open>\<open>domain[-1]\<close> raises \<open>IndexError\<close> on the empty string. \<open>not url\<close> holds for
  \<open>None\<close> and for the empty string.\<close>

definition validate_update_url ::
    "ParseResult \<Rightarrow> string \<Rightarrow> string \<Rightarrow> string \<Rightarrow> bool \<Rightarrow> exn + string option" where
  "validate_update_url p_url href domain netloc exclude_root =
     (if domain = [] then Inl IndexError
      else
        let exclude_list =
              [domain, if last domain = CHR ''/'' then butlast domain else domain @ ''/''];
            u = (if p_netloc p_url = [] then Some (domain @ href)
                 else if p_netloc p_url = netloc then Some href
                 else None)
        in case u of
             None \<Rightarrow> Inr None
           | Some u \<Rightarrow>
               if u = [] then Inr None
               else if \<not> is_url_valid u then Inr None
               else if exclude_root \<and> List.member exclude_list u then Inr None
               else Inr (Some (split_hash u)))"

section \<open>sitemap\_obj.py: requests and prepare\<close>

text \<open>
  A response as the program reads it: the final URL after redirects, the status, the
  headers (looked up by lower-case name), and for a page the \<open>href\<close> attribute of each
  of its \<open>a\<close> elements in document order (\<open>None\<close> for an element without one).
\<close>

record response =
  r_url :: string
  r_status :: int
  r_headers :: "string \<rightharpoonup> string"
  r_hrefs :: "string option list"

text \<open>The network: what the attempt number \<open>tries\<close> of a request with this method to
  this URL gives, \<open>None\<close> when it raises (a timeout, a refused connection).\<close>

type_synonym network = "string \<Rightarrow> string \<Rightarrow> nat \<Rightarrow> response option"

definition REQUEST_RETRY :: nat where
  "REQUEST_RETRY = 3"

text \<open>\<open>__do_request\<close>: the response, if any, and the number of requests sent.\<close>

function do_request_loop :: "network \<Rightarrow> string \<Rightarrow> string \<Rightarrow> nat \<Rightarrow> response option \<times> nat" where
  "do_request_loop net method u tries =
     (if tries < REQUEST_RETRY then
        (case net method u tries of
           Some r \<Rightarrow> (Some r, Suc tries)
         | None \<Rightarrow> do_request_loop net method u (Suc tries))
      else (None, tries))"
  by pat_completeness auto
termination
  by (relation "measure (\<lambda>(net, method, u, tries). REQUEST_RETRY - tries)") auto

definition do_request :: "network \<Rightarrow> string \<Rightarrow> string \<Rightarrow> response option \<times> nat" where
  "do_request net method u = do_request_loop net method u 0"

fun show_nat :: "nat \<Rightarrow> string" where
  "show_nat n =
     (if n < 10 then [char_of (48 + n)] else show_nat (n div 10) @ [char_of (48 + n mod 10)])"

definition show_int :: "int \<Rightarrow> string" where
  "show_int i = (if i < 0 then ''-'' @ show_nat (nat (- i)) else show_nat (nat i))"

definition ctype_validator :: regex where
  "ctype_validator = Lit ''text/html''"

definition msg_request :: "string \<Rightarrow> string" where
  "msg_request u = ''SKIP '' @ u @ '': Request exception: timeout, etc.''"

definition msg_status :: "string \<Rightarrow> int \<Rightarrow> string" where
  "msg_status u st = ''SKIP '' @ u @ '': status code: '' @ show_int st @ ''. Unsupported''"

definition msg_no_ctype :: "string \<Rightarrow> string" where
  "msg_no_ctype u = ''SKIP '' @ u @ '': there is no CONTENT-TYPE''"

definition msg_ctype :: "string \<Rightarrow> string" where
  "msg_ctype u = ''SKIP '' @ u @ '': CONTENT-TYPE unsupported''"

text \<open>
  \<open>prepare\<close>, from the response of the HEAD request on: \<open>strptime\<close> is
  \<open>datetime.strptime\<close> with the format of the source, \<open>None\<close> when it raises
  \<open>ValueError\<close>. The object's URL becomes the response's; \<open>not content_type\<close> and
  \<open>if last_mod\<close> treat an empty header as an absent one.
\<close>

definition prepare_response ::
    "(string \<Rightarrow> 't option) \<Rightarrow> string \<Rightarrow> response option \<Rightarrow> exn + 't SitemapObj" where
  "prepare_response strptime u resp =
     (case resp of
        None \<Rightarrow> Inl (SitemapObjError (msg_request u))
      | Some r \<Rightarrow>
          if r_status r \<noteq> 200 then Inl (SitemapObjError (msg_status (r_url r) (r_status r)))
          else
            (case r_headers r ''content-type'' of
               None \<Rightarrow> Inl (SitemapObjError (msg_no_ctype (r_url r)))
             | Some content_type \<Rightarrow>
                 if content_type = [] then Inl (SitemapObjError (msg_no_ctype (r_url r)))
                 else if \<not> re_match False ctype_validator content_type
                   then Inl (SitemapObjError (msg_ctype (r_url r)))
                 else
                   (case r_headers r ''last-modified'' of
                      None \<Rightarrow> Inr \<lparr>url = r_url r, last_mod = None\<rparr>
                    | Some lm \<Rightarrow>
                        if lm = [] then Inr \<lparr>url = r_url r, last_mod = None\<rparr>
                        else
                          (case strptime lm of
                             None \<Rightarrow> Inl ValueError
                           | Some t \<Rightarrow> Inr \<lparr>url = r_url r, last_mod = Some t\<rparr>))))"

text \<open>\<open>prepare\<close>: the HEAD request, then the checks; with the number of requests sent.\<close>

definition prepare ::
    "(string \<Rightarrow> 't option) \<Rightarrow> network \<Rightarrow> string \<Rightarrow> (exn + 't SitemapObj) \<times> nat" where
  "prepare strptime net u =
     (case do_request net ''head'' u of (resp, n) \<Rightarrow> (prepare_response strptime u resp, n))"

section \<open>sitemap\_obj.py: SitemapWalker\<close>

text \<open>
  The walker's state: \<open>__domain\<close>, \<open>__netloc\<close> and \<open>__visited\<close> (a set, kept as the
  list of its elements in the order they were added; membership is by URL), and the
  requests sent so far, each with its method and URL.
\<close>

record 't SitemapWalker =
  w_domain :: string
  w_netloc :: string
  w_visited :: "'t SitemapObj list"
  w_requests :: "(string \<times> string) list"

definition visited_urls :: "'t SitemapWalker \<Rightarrow> string list" where
  "visited_urls w = map url (w_visited w)"

definition sent :: "string \<Rightarrow> string \<Rightarrow> nat \<Rightarrow> 't SitemapWalker \<Rightarrow> 't SitemapWalker" where
  "sent method u n w = w\<lparr>w_requests := w_requests w @ replicate n (method, u)\<rparr>"

definition SELECTOR_LIMIT :: nat where
  "SELECTOR_LIMIT = 64"

definition DEPTH_LEVEL :: int where
  "DEPTH_LEVEL = 3"

subsection \<open>\_\_group\_execute\_tasks\<close>

text \<open>\<open>itertools.zip_longest(*[iter(tasks)]*n)\<close>: tuples of \<open>n\<close> consecutive items, the
  last one filled up with \<open>None\<close>.\<close>

function zip_longest :: "nat \<Rightarrow> 'a list \<Rightarrow> 'a option list list" where
  "zip_longest n xs =
     (if n = 0 \<or> xs = [] then []
      else (map Some (take n xs) @ replicate (n - length xs) None) # zip_longest n (drop n xs))"
  by pat_completeness auto
termination
  by (relation "measure (\<lambda>(n, xs). length xs)") auto

text \<open>The inner loop: a task for every item of the tuple up to the first one that is
  not true (\<open>if not v: break\<close>); \<open>truthy\<close> says which items are true.\<close>

fun aiotasks :: "('a \<Rightarrow> bool) \<Rightarrow> 'a option list \<Rightarrow> 'a list" where
  "aiotasks truthy [] = []"
| "aiotasks truthy (None # s) = []"
| "aiotasks truthy (Some v # s) = (if truthy v then v # aiotasks truthy s else [])"

definition task_groups :: "('a \<Rightarrow> bool) \<Rightarrow> nat \<Rightarrow> 'a list \<Rightarrow> 'a list list" where
  "task_groups truthy limit tasks = map (aiotasks truthy) (zip_longest limit tasks)"

text \<open>One event loop per group: \<open>run g\<close> starts the tasks of group \<open>g\<close> together and
  runs them to completion. \<open>asyncio.wait\<close> raises \<open>ValueError\<close> on an empty list of
  tasks, which ends the whole call.\<close>

fun run_groups :: "('a list \<Rightarrow> 's \<Rightarrow> 's) \<Rightarrow> 'a list list \<Rightarrow> 's \<Rightarrow> exn option \<times> 's" where
  "run_groups run [] st = (None, st)"
| "run_groups run (g # gs) st =
     (if g = [] then (Some ValueError, st) else run_groups run gs (run g st))"

definition group_execute_tasks ::
    "('a \<Rightarrow> bool) \<Rightarrow> ('a list \<Rightarrow> 's \<Rightarrow> 's) \<Rightarrow> nat \<Rightarrow> 'a list \<Rightarrow> 's \<Rightarrow> exn option \<times> 's" where
  "group_execute_tasks truthy run limit tasks st =
     run_groups run (task_groups truthy limit tasks) st"

subsection \<open>\_\_head\_request\_coro\<close>

definition add_visited ::
    "'t SitemapObj \<Rightarrow> 't SitemapWalker \<times> 't SitemapObj list
       \<Rightarrow> 't SitemapWalker \<times> 't SitemapObj list" where
  "add_visited obj st =
     (case st of (w, objs) \<Rightarrow>
        if List.member (visited_urls w) (url obj) then (w, objs)
        else (w\<lparr>w_visited := w_visited w @ [obj]\<rparr>, objs @ [obj]))"

text \<open>
  The coroutine from \<open>obj.prepare()\<close> on. A \<open>SitemapObjError\<close> is caught and ends it; any
  other exception ends the task, and \<open>asyncio.wait\<close> does not raise it again. In both
  cases nothing is added.
\<close>

definition head_request_coro ::
    "(string \<Rightarrow> 't option) \<Rightarrow> network \<Rightarrow> int \<Rightarrow> string
       \<Rightarrow> 't SitemapWalker \<times> 't SitemapObj list \<Rightarrow> 't SitemapWalker \<times> 't SitemapObj list" where
  "head_request_coro strptime net lvlidx u st =
     (case st of (w, objs) \<Rightarrow>
      (case prepare strptime net u of (res, n) \<Rightarrow>
        let w0 = sent ''head'' u n w in
        (case res of
           Inl e \<Rightarrow> (w0, objs)
         | Inr obj \<Rightarrow>
             if url obj \<noteq> u then
               (case urlparse (url obj) of
                  Inl e \<Rightarrow> (w0, objs)
                | Inr up \<Rightarrow>
                    let w1 = (if lvlidx = 0
                              then w0\<lparr>w_domain := p_scheme up @ ''://'' @ p_netloc up,
                                     w_netloc := p_netloc up\<rparr>
                              else w0)
                    in (case validate_update_url up (url obj) (w_domain w1) (w_netloc w1)
                               (lvlidx \<noteq> 0) of
                          Inl e \<Rightarrow> (w1, objs)
                        | Inr None \<Rightarrow> (w1, objs)
                        | Inr (Some v) \<Rightarrow>
                            if v = [] then (w1, objs) else add_visited obj (w1, objs)))
             else add_visited obj (w0, objs))))"

text \<open>
  A group of HEAD tasks. Every task runs its first check, \<open>url in self.__visited\<close>,
  when the loop starts it, before any response has arrived; the tasks then finish one
  after the other, here in the order of the group.
\<close>

definition head_group ::
    "(string \<Rightarrow> 't option) \<Rightarrow> network \<Rightarrow> int \<Rightarrow> string list
       \<Rightarrow> 't SitemapWalker \<times> 't SitemapObj list \<Rightarrow> 't SitemapWalker \<times> 't SitemapObj list" where
  "head_group strptime net lvlidx g st =
     fold (head_request_coro strptime net lvlidx)
          (filter (\<lambda>u. \<not> List.member (visited_urls (fst st)) u) g) st"

subsection \<open>process and \_\_get\_request\_coro\<close>

definition set_add :: "'a \<Rightarrow> 'a list \<Rightarrow> 'a list" where
  "set_add x xs = (if List.member xs x then xs else xs @ [x])"

text \<open>
  The loop over the \<open>a\<close> elements of the page. For an element without \<open>href\<close> the parse
  result is of bytes, its netloc is neither the empty string nor the walker's netloc,
  and the link is dropped. An exception ends the task with what was added before.
\<close>

fun process_hrefs :: "string \<Rightarrow> string \<Rightarrow> string option list \<Rightarrow> string list \<Rightarrow> string list" where
  "process_hrefs domain netloc [] nextlvl = nextlvl"
| "process_hrefs domain netloc (None # hs) nextlvl =
     (if domain = [] then nextlvl else process_hrefs domain netloc hs nextlvl)"
| "process_hrefs domain netloc (Some href # hs) nextlvl =
     (case urlparse href of
        Inl e \<Rightarrow> nextlvl
      | Inr up \<Rightarrow>
          (case validate_update_url up href domain netloc True of
             Inl e \<Rightarrow> nextlvl
           | Inr None \<Rightarrow> process_hrefs domain netloc hs nextlvl
           | Inr (Some v) \<Rightarrow>
               process_hrefs domain netloc hs (if v = [] then nextlvl else set_add v nextlvl)))"

definition process ::
    "network \<Rightarrow> 't SitemapObj \<Rightarrow> 't SitemapWalker \<times> string list \<Rightarrow> 't SitemapWalker \<times> string list" where
  "process net obj st =
     (case st of (w, nextlvl) \<Rightarrow>
      (case do_request net ''get'' (url obj) of (resp, n) \<Rightarrow>
        let w0 = sent ''get'' (url obj) n w in
        (case resp of
           None \<Rightarrow> (w0, nextlvl)
         | Some r \<Rightarrow> (w0, process_hrefs (w_domain w) (w_netloc w) (r_hrefs r) nextlvl))))"

definition get_group ::
    "network \<Rightarrow> 't SitemapObj list \<Rightarrow> 't SitemapWalker \<times> string list
       \<Rightarrow> 't SitemapWalker \<times> string list" where
  "get_group net g st = fold (process net) g st"

subsection \<open>traverse\_links\<close>

text \<open>A string is true when it is not empty; a \<open>SitemapObj\<close> is always true.\<close>

function traverse_loop ::
    "(string \<Rightarrow> 't option) \<Rightarrow> network \<Rightarrow> int \<Rightarrow> int \<Rightarrow> string list \<Rightarrow> 't SitemapWalker
       \<Rightarrow> exn option \<times> 't SitemapWalker" where
  "traverse_loop strptime net depth lvlidx thislvl w =
     (if thislvl = [] then (None, w)
      else
        (case group_execute_tasks (\<lambda>v. v \<noteq> []) (head_group strptime net lvlidx)
                SELECTOR_LIMIT thislvl (w, []) of
           (Some e, (w1, objs)) \<Rightarrow> (Some e, w1)
         | (None, (w1, objs)) \<Rightarrow>
             if lvlidx \<ge> depth then (None, w1)
             else
               (case group_execute_tasks (\<lambda>v. True) (get_group net)
                       SELECTOR_LIMIT objs (w1, []) of
                  (Some e, (w2, nextlvl)) \<Rightarrow> (Some e, w2)
                | (None, (w2, nextlvl)) \<Rightarrow>
                    traverse_loop strptime net depth (lvlidx + 1) nextlvl w2)))"
  by pat_completeness auto
termination
  by (relation "measure (\<lambda>(strptime, net, depth, lvlidx, thislvl, w). nat (depth - lvlidx))") auto

definition traverse_links ::
    "(string \<Rightarrow> 't option) \<Rightarrow> network \<Rightarrow> int \<Rightarrow> 't SitemapWalker \<Rightarrow> exn option \<times> 't SitemapWalker" where
  "traverse_links strptime net depth w = traverse_loop strptime net depth 0 [w_domain w] w"

text \<open>\<open>SitemapWalker(domain, netloc)\<close>\<close>

definition new_walker :: "string \<Rightarrow> string \<Rightarrow> 't SitemapWalker" where
  "new_walker domain netloc =
     \<lparr>w_domain = domain, w_netloc = netloc, w_visited = [], w_requests = []\<rparr>"

section \<open>sitemap\_obj.py: the sitemap files\<close>

text \<open>
  An element of \<open>xml.etree.ElementTree\<close>: its tag, its attributes, its text and its
  children. \<open>__indent\<close> only sets white space between the elements and is left out; a
  file holds the tree that was written to it.
\<close>

datatype xml = Element string "(string \<times> string) list" "string option" "xml list"

definition xmlns :: string where
  "xmlns = ''http://www.sitemaps.org/schemas/sitemap/0.9''"

text \<open>\<open>strftime t\<close> is \<open>t.strftime("%Y-%m-%d")\<close>.\<close>

definition xml_node :: "('t \<Rightarrow> string) \<Rightarrow> 't SitemapObj \<Rightarrow> xml" where
  "xml_node strftime obj =
     Element ''url'' [] None
       (Element ''loc'' [] (Some (url obj)) [] #
        (case last_mod obj of
           None \<Rightarrow> []
         | Some t \<Rightarrow> [Element ''lastmod'' [] (Some (strftime t)) []]))"

text \<open>The files on disk, and the archives with their members in the order written.\<close>

record filesystem =
  fs_files :: "string \<rightharpoonup> xml"
  fs_zips :: "string \<rightharpoonup> (string \<times> xml) list"

definition SITEMAP_SIZE :: nat where
  "SITEMAP_SIZE = 50000"

definition XML_PATH :: string where
  "XML_PATH = ''xml/''"

text \<open>The loop of \<open>__generate_sitemap\<close> stops at the first entry that is not true, which
  for descriptors is the \<open>None\<close> that fills the last tuple.\<close>

fun listed :: "'a option list \<Rightarrow> 'a list" where
  "listed [] = []"
| "listed (None # s) = []"
| "listed (Some l # s) = l # listed s"

text \<open>\<open>__generate_sitemap\<close>\<close>

definition private_generate_sitemap ::
    "('t \<Rightarrow> string) \<Rightarrow> string \<Rightarrow> 't SitemapObj option list \<Rightarrow> filesystem \<Rightarrow> string \<times> filesystem" where
  "private_generate_sitemap strftime filename objlist fs =
     (let root = Element ''urlset'' [(''xmlns'', xmlns)] None
                   (map (xml_node strftime) (listed objlist));
          name = filename @ ''.xml''
      in (name, fs\<lparr>fs_files := (fs_files fs)(name \<mapsto> root)\<rparr>))"

text \<open>\<open>xml.split('/')[-1]\<close>\<close>

definition basename :: "string \<Rightarrow> string" where
  "basename p = rev (takeWhile (\<lambda>c. c \<noteq> CHR ''/'') (rev p))"

text \<open>The loop over the numbered tuples: the chunk is written, put into the archive and
  removed; \<open>zipf\<close> holds the members of the archive, \<open>sitemaps\<close> the children of the
  index so far.\<close>

fun sitemap_chunks ::
    "('t \<Rightarrow> string) \<Rightarrow> string \<Rightarrow> nat \<Rightarrow> 't SitemapObj option list list
       \<Rightarrow> filesystem \<times> (string \<times> xml) list \<times> xml list
       \<Rightarrow> exn + filesystem \<times> (string \<times> xml) list \<times> xml list" where
  "sitemap_chunks strftime domain idx [] st = Inr st"
| "sitemap_chunks strftime domain idx (s # ss) (fs, zipf, sitemaps) =
     (case private_generate_sitemap strftime (XML_PATH @ ''sitemap'' @ show_nat idx) s fs of
        (xml, fs1) \<Rightarrow>
          let loc = Element ''loc'' [] (Some (domain @ ''/'' @ basename xml)) [];
              sitemap = Element ''sitemap'' [] None [loc]
          in (case fs_files fs1 xml of
                None \<Rightarrow> Inl FileNotFoundError
              | Some doc \<Rightarrow>
                  sitemap_chunks strftime domain (Suc idx) ss
                    (fs1\<lparr>fs_files := (fs_files fs1)(xml := None)\<rparr>,
                     zipf @ [(xml, doc)],
                     sitemaps @ [sitemap])))"

definition generate_sitemap ::
    "('t \<Rightarrow> string) \<Rightarrow> string \<Rightarrow> 't SitemapWalker \<Rightarrow> filesystem \<Rightarrow> exn + string \<times> filesystem" where
  "generate_sitemap strftime filename w fs =
     (if length (w_visited w) \<le> SITEMAP_SIZE
      then Inr (private_generate_sitemap strftime filename (map Some (w_visited w)) fs)
      else
        let zipname = filename @ ''.zip'' in
        (case sitemap_chunks strftime (w_domain w) 0
                (zip_longest SITEMAP_SIZE (w_visited w)) (fs, [], []) of
           Inl e \<Rightarrow> Inl e
         | Inr (fs1, zipf, sitemaps) \<Rightarrow>
             let root = Element ''sitemapindex'' [(''xmlns'', xmlns)] None sitemaps;
                 fileidx = filename @ ''.xml'';
                 fs2 = fs1\<lparr>fs_files := (fs_files fs1)(fileidx \<mapsto> root)\<rparr>
             in (case fs_files fs2 fileidx of
                   None \<Rightarrow> Inl FileNotFoundError
                 | Some doc \<Rightarrow>
                     Inr (zipname,
                          fs2\<lparr>fs_files := (fs_files fs2)(fileidx := None),
                              fs_zips := (fs_zips fs2)(zipname \<mapsto> zipf @ [(fileidx, doc)])\<rparr>))))"

section \<open>The strings that the pattern of is\_url\_valid describes\<close>












section \<open>Well-formed hosts in the words of the specification\<close>






section \<open>The language of a pattern\<close>









section \<open>Properties\<close>

subsection \<open>Characters and literals\<close>




lemma lit_steps_exact: "lit_steps False w s = (if prefix w s then [drop (length w) s] else [])"
proof (induction w arbitrary: s)
  case Nil
  show ?case by simp
next
  case (Cons a w)
  show ?case
  proof (cases s)
    case Nil
    then show ?thesis by simp
  next
    case (Cons c t)
    then show ?thesis using Cons.IH [of t] by (simp add: lit_eq_def)
  qed
qed

lemma re_match_Lit: "re_match False (Lit w) s = prefix w s"
  by (simp add: re_match_def lit_steps_exact)

subsection \<open>Equality of descriptors\<close>

text \<open>
  C2. The claim: comparing two descriptors succeeds and is true exactly when their URLs
  are equal. In the code the second type test repeats the first, so the comparison of
  a descriptor with any descriptor raises \<open>SitemapObjError\<close>, whatever the URLs.
\<close>

theorem SitemapObj_eq_two_descriptors:
  "SitemapObj_eq a (PyObj b) = Inl (SitemapObjError ''Uncomparable types'')"
  by (simp add: SitemapObj_eq_def)

subsection \<open>Ranges under IGNORECASE\<close>




subsection \<open>validate\_update\_url\<close>

text \<open>
  C1. The claim: with \<open>exclude_root\<close> true the result is never the domain nor the domain
  with a slash appended. The code compares with the root before it cuts the fragment:
  for the link \<open>/#top\<close> on \<open>http://example.com\<close> the URL \<open>http://example.com/#top\<close>
  passes the comparison, and the root with its slash is returned.
\<close>

theorem validate_update_url_returns_root:
  "urlparse ''/#top'' = Inr \<lparr>p_scheme = [], p_netloc = []\<rparr> \<and>
   validate_update_url \<lparr>p_scheme = [], p_netloc = []\<rparr> ''/#top''
       ''http://example.com'' ''example.com'' True
     = Inr (Some ''http://example.com/'')"
  by code_simp

text \<open>
  C10. A relative link that does not begin with a slash is appended to the domain as it
  is: for \<open>page.html\<close> on \<open>http://example.com\<close> the result is
  \<open>http://example.compage.html\<close>, which the validator accepts and whose host is not the
  netloc \<open>example.com\<close>.
\<close>

theorem relative_href_changes_host:
  "urlparse ''page.html'' = Inr \<lparr>p_scheme = [], p_netloc = []\<rparr> \<and>
   validate_update_url \<lparr>p_scheme = [], p_netloc = []\<rparr> ''page.html''
       ''http://example.com'' ''example.com'' True
     = Inr (Some ''http://example.compage.html'') \<and>
   is_url_valid ''http://example.compage.html'' \<and>
   urlparse ''http://example.compage.html''
     = Inr \<lparr>p_scheme = ''http'', p_netloc = ''example.compage.html''\<rparr> \<and>
   ''example.compage.html'' \<noteq> ''example.com''"
  by code_simp

subsection \<open>prepare\<close>

lemma do_request_first: "net method u 0 = Some r \<Longrightarrow> do_request net method u = (Some r, 1)"
  by (simp add: do_request_def REQUEST_RETRY_def)

text \<open>
  C4. The claim: a response with status 200 is rejected for its content type exactly
  when the header is absent or does not start with \<open>text/html\<close>, compared without
  regard to case. The pattern is compiled without \<open>IGNORECASE\<close>: \<open>Text/HTML\<close> is
  rejected.
\<close>

theorem content_type_capitals_rejected:
  "prepare_response (\<lambda>s. None :: nat option) ''http://example.com''
       (Some \<lparr>r_url = ''http://example.com'', r_status = 200,
              r_headers = [''content-type'' \<mapsto> ''Text/HTML''], r_hrefs = []\<rparr>)
     = Inl (SitemapObjError (msg_ctype ''http://example.com''))"
  by (simp add: prepare_response_def re_match_Lit ctype_validator_def)

text \<open>
  C4 as amended: for a response with status 200, an absent or empty content type header
  is rejected with the message \<open>there is no CONTENT-TYPE\<close>; a header that is not empty
  and does not start with \<open>text/html\<close> in exactly these lower-case letters is rejected
  with the message \<open>CONTENT-TYPE unsupported\<close>; and a header that starts with
  \<open>text/html\<close> is not rejected with any \<open>SitemapObjError\<close>.
\<close>

theorem prepare_content_type:
  assumes "r_status r = 200"
  shows "(r_headers r ''content-type'' = None \<or> r_headers r ''content-type'' = Some []
            \<longrightarrow> prepare_response strptime u (Some r)
                  = Inl (SitemapObjError (msg_no_ctype (r_url r)))) \<and>
         (\<forall>ct. r_headers r ''content-type'' = Some ct \<and> ct \<noteq> [] \<and> \<not> prefix ''text/html'' ct
            \<longrightarrow> prepare_response strptime u (Some r)
                  = Inl (SitemapObjError (msg_ctype (r_url r)))) \<and>
         (\<forall>ct. r_headers r ''content-type'' = Some ct \<and> prefix ''text/html'' ct
            \<longrightarrow> (\<forall>m. prepare_response strptime u (Some r) \<noteq> Inl (SitemapObjError m)))"
proof (intro conjI allI impI)
  assume "r_headers r ''content-type'' = None \<or> r_headers r ''content-type'' = Some []"
  then show "prepare_response strptime u (Some r) = Inl (SitemapObjError (msg_no_ctype (r_url r)))"
    using assms by (auto simp: prepare_response_def)
next
  fix ct
  assume "r_headers r ''content-type'' = Some ct \<and> ct \<noteq> [] \<and> \<not> prefix ''text/html'' ct"
  then show "prepare_response strptime u (Some r) = Inl (SitemapObjError (msg_ctype (r_url r)))"
    using assms by (simp add: prepare_response_def re_match_Lit ctype_validator_def)
next
  fix ct m
  assume a: "r_headers r ''content-type'' = Some ct \<and> prefix ''text/html'' ct"
  then have "ct \<noteq> []" by auto
  then show "prepare_response strptime u (Some r) \<noteq> Inl (SitemapObjError m)"
    using assms a
    by (auto simp: prepare_response_def re_match_Lit ctype_validator_def split: option.splits)
qed

theorem prepare_content_type_witness:
  "r_status \<lparr>r_url = ''http://example.com'', r_status = 200,
              r_headers = [''content-type'' \<mapsto> ''text/html; charset=utf-8''], r_hrefs = []\<rparr> = 200 \<and>
   (\<forall>m. prepare_response (\<lambda>s. None :: nat option) ''http://example.com''
       (Some \<lparr>r_url = ''http://example.com'', r_status = 200,
              r_headers = [''content-type'' \<mapsto> ''text/html; charset=utf-8''], r_hrefs = []\<rparr>)
     \<noteq> Inl (SitemapObjError m)) \<and>
   prepare_response (\<lambda>s. None :: nat option) ''http://example.com''
       (Some \<lparr>r_url = ''http://example.com'', r_status = 200,
              r_headers = Map.empty, r_hrefs = []\<rparr>)
     = Inl (SitemapObjError (msg_no_ctype ''http://example.com'')) \<and>
   prepare_response (\<lambda>s. None :: nat option) ''http://example.com''
       (Some \<lparr>r_url = ''http://example.com'', r_status = 200,
              r_headers = [''content-type'' \<mapsto> ''TEXT/HTML; charset=utf-8''], r_hrefs = []\<rparr>)
     = Inl (SitemapObjError (msg_ctype ''http://example.com''))"
proof -
  let ?P = "\<lambda>s :: string. None :: nat option"
  let ?u = "''http://example.com''"
  let ?r1 = "\<lparr>r_url = ''http://example.com'', r_status = 200,
              r_headers = [''content-type'' \<mapsto> ''text/html; charset=utf-8''], r_hrefs = []\<rparr>"
  let ?r2 = "\<lparr>r_url = ''http://example.com'', r_status = 200,
              r_headers = Map.empty, r_hrefs = []\<rparr>"
  let ?r3 = "\<lparr>r_url = ''http://example.com'', r_status = 200,
              r_headers = [''content-type'' \<mapsto> ''TEXT/HTML; charset=utf-8''], r_hrefs = []\<rparr>"
  have h1: "r_status ?r1 = 200" and h2: "r_status ?r2 = 200" and h3: "r_status ?r3 = 200"
    by simp_all
  have a: "\<forall>m. prepare_response ?P ?u (Some ?r1) \<noteq> Inl (SitemapObjError m)"
    using prepare_content_type [OF h1, of ?P ?u] by simp
  have b: "prepare_response ?P ?u (Some ?r2) = Inl (SitemapObjError (msg_no_ctype ?u))"
    using prepare_content_type [OF h2, of ?P ?u] by simp
  have c: "prepare_response ?P ?u (Some ?r3) = Inl (SitemapObjError (msg_ctype ?u))"
    using prepare_content_type [OF h3, of ?P ?u] by simp
  from h1 a b c show ?thesis by (intro conjI)
qed

text \<open>
  C3. The claim: a response that passes the status and content type checks and whose
  \<open>last-modified\<close> header does not parse still gives a descriptor, without a
  last-modified time. In the code the parser's \<open>ValueError\<close> leaves \<open>prepare\<close>.
\<close>

theorem unparsable_date_is_an_error:
  "prepare_response (\<lambda>s. if s = ''Wed, 21 Oct 2015 07:28:00 GMT'' then Some (0 :: nat) else None)
       ''http://example.com''
       (Some \<lparr>r_url = ''http://example.com'', r_status = 200,
              r_headers = [''content-type'' \<mapsto> ''text/html'', ''last-modified'' \<mapsto> ''yesterday''],
              r_hrefs = []\<rparr>)
     = Inl ValueError"
  by (simp add: prepare_response_def re_match_Lit ctype_validator_def)

text \<open>
  C3 as amended: for a response that passes the status and content type checks, an
  absent or empty \<open>last-modified\<close> header gives a descriptor without a last-modified
  time, a header that parses gives a descriptor with the parsed time, and a header that
  is not empty and does not parse makes \<open>prepare\<close> raise \<open>ValueError\<close>. The HEAD
  coroutine catches \<open>SitemapObjError\<close> only, so in the last case its task ends there:
  the request is counted, nothing is added to the visited set or to the objects of the
  level.
\<close>

theorem last_modified_cases:
  assumes "do_request net ''head'' u = (Some r, n)"
    and "r_status r = 200"
    and "r_headers r ''content-type'' = Some content_type"
    and "prefix ''text/html'' content_type"
  shows "prepare strptime net u =
           ((case r_headers r ''last-modified'' of
               None \<Rightarrow> Inr \<lparr>url = r_url r, last_mod = None\<rparr>
             | Some lm \<Rightarrow>
                 if lm = [] then Inr \<lparr>url = r_url r, last_mod = None\<rparr>
                 else (case strptime lm of
                         None \<Rightarrow> Inl ValueError
                       | Some t \<Rightarrow> Inr \<lparr>url = r_url r, last_mod = Some t\<rparr>)), n) \<and>
         ((\<exists>lm. r_headers r ''last-modified'' = Some lm \<and> lm \<noteq> [] \<and> strptime lm = None)
            \<longrightarrow> head_request_coro strptime net lvlidx u (w, objs) = (sent ''head'' u n w, objs) \<and>
                w_visited (sent ''head'' u n w) = w_visited w)"
proof -
  have c: "content_type \<noteq> []" using assms(4) by auto
  have p: "prepare strptime net u =
           ((case r_headers r ''last-modified'' of
               None \<Rightarrow> Inr \<lparr>url = r_url r, last_mod = None\<rparr>
             | Some lm \<Rightarrow>
                 if lm = [] then Inr \<lparr>url = r_url r, last_mod = None\<rparr>
                 else (case strptime lm of
                         None \<Rightarrow> Inl ValueError
                       | Some t \<Rightarrow> Inr \<lparr>url = r_url r, last_mod = Some t\<rparr>)), n)"
    using assms c
    by (simp add: prepare_def prepare_response_def re_match_Lit ctype_validator_def)
  have "head_request_coro strptime net lvlidx u (w, objs) = (sent ''head'' u n w, objs) \<and>
        w_visited (sent ''head'' u n w) = w_visited w"
    if "\<exists>lm. r_headers r ''last-modified'' = Some lm \<and> lm \<noteq> [] \<and> strptime lm = None"
  proof -
    from that obtain lm where "r_headers r ''last-modified'' = Some lm" "lm \<noteq> []" "strptime lm = None"
      by blast
    then have "prepare strptime net u = (Inl ValueError, n)" using p by simp
    then show ?thesis by (simp add: head_request_coro_def sent_def)
  qed
  with p show ?thesis by blast
qed

theorem last_modified_cases_witness:
  "prepare (\<lambda>s. if s = ''Wed, 21 Oct 2015 07:28:00 GMT'' then Some (0 :: nat) else None)
       (\<lambda>method u tries. Some \<lparr>r_url = u, r_status = 200,
              r_headers = [''content-type'' \<mapsto> ''text/html'', ''last-modified'' \<mapsto> ''yesterday''],
              r_hrefs = []\<rparr>) ''http://example.com'' = (Inl ValueError, 1) \<and>
   head_request_coro (\<lambda>s. if s = ''Wed, 21 Oct 2015 07:28:00 GMT'' then Some (0 :: nat) else None)
       (\<lambda>method u tries. Some \<lparr>r_url = u, r_status = 200,
              r_headers = [''content-type'' \<mapsto> ''text/html'', ''last-modified'' \<mapsto> ''yesterday''],
              r_hrefs = []\<rparr>) 0 ''http://example.com''
       (new_walker ''http://example.com'' ''example.com'', [])
     = (sent ''head'' ''http://example.com'' 1 (new_walker ''http://example.com'' ''example.com''), []) \<and>
   w_visited (sent ''head'' ''http://example.com'' 1
       (new_walker ''http://example.com'' ''example.com'' :: nat SitemapWalker)) = [] \<and>
   prepare (\<lambda>s. if s = ''Wed, 21 Oct 2015 07:28:00 GMT'' then Some (0 :: nat) else None)
       (\<lambda>method u tries. Some \<lparr>r_url = u, r_status = 200,
              r_headers = [''content-type'' \<mapsto> ''text/html'', ''last-modified'' \<mapsto> []],
              r_hrefs = []\<rparr>) ''http://example.com''
     = (Inr \<lparr>url = ''http://example.com'', last_mod = None\<rparr>, 1) \<and>
   prepare (\<lambda>s. if s = ''Wed, 21 Oct 2015 07:28:00 GMT'' then Some (0 :: nat) else None)
       (\<lambda>method u tries. Some \<lparr>r_url = u, r_status = 200,
              r_headers = [''content-type'' \<mapsto> ''text/html''],
              r_hrefs = []\<rparr>) ''http://example.com''
     = (Inr \<lparr>url = ''http://example.com'', last_mod = None\<rparr>, 1) \<and>
   prepare (\<lambda>s. if s = ''Wed, 21 Oct 2015 07:28:00 GMT'' then Some (0 :: nat) else None)
       (\<lambda>method u tries. Some \<lparr>r_url = u, r_status = 200,
              r_headers = [''content-type'' \<mapsto> ''text/html'',
                           ''last-modified'' \<mapsto> ''Wed, 21 Oct 2015 07:28:00 GMT''],
              r_hrefs = []\<rparr>) ''http://example.com''
     = (Inr \<lparr>url = ''http://example.com'', last_mod = Some 0\<rparr>, 1)"
proof -
  let ?P = "\<lambda>s. if s = ''Wed, 21 Oct 2015 07:28:00 GMT'' then Some (0 :: nat) else None"
  let ?u = "''http://example.com''"
  let ?h1 = "[''content-type'' \<mapsto> ''text/html'', ''last-modified'' \<mapsto> ''yesterday'']"
  let ?h2 = "[''content-type'' \<mapsto> ''text/html'', ''last-modified'' \<mapsto> []]"
  let ?h3 = "[''content-type'' \<mapsto> ''text/html'']"
  let ?h4 = "[''content-type'' \<mapsto> ''text/html'',
              ''last-modified'' \<mapsto> ''Wed, 21 Oct 2015 07:28:00 GMT'']"
  let ?net = "\<lambda>h (method :: string) (u :: string) (tries :: nat).
                Some \<lparr>r_url = u, r_status = 200, r_headers = h, r_hrefs = []\<rparr>"
  let ?r = "\<lambda>h. \<lparr>r_url = ?u, r_status = 200, r_headers = h, r_hrefs = []\<rparr>"
  have d: "\<And>h. do_request (?net h) ''head'' ?u = (Some (?r h), 1)"
    by (rule do_request_first) simp
  have a: "prepare ?P (?net ?h1) ?u = (Inl ValueError, 1) \<and>
        head_request_coro ?P (?net ?h1) 0 ?u (new_walker ?u ''example.com'', [])
          = (sent ''head'' ?u 1 (new_walker ?u ''example.com''), []) \<and>
        w_visited (sent ''head'' ?u 1 (new_walker ?u ''example.com'' :: nat SitemapWalker)) = []"
    using last_modified_cases [OF d [of ?h1], of "''text/html''" ?P 0
        "new_walker ?u ''example.com''" "[]"]
    by (simp add: new_walker_def)
  have b: "prepare ?P (?net ?h2) ?u = (Inr \<lparr>url = ?u, last_mod = None\<rparr>, 1)"
    using last_modified_cases [OF d [of ?h2], of "''text/html''" ?P 0
        "new_walker ?u ''example.com''" "[]"]
    by simp
  have c: "prepare ?P (?net ?h3) ?u = (Inr \<lparr>url = ?u, last_mod = None\<rparr>, 1)"
    using last_modified_cases [OF d [of ?h3], of "''text/html''" ?P 0
        "new_walker ?u ''example.com''" "[]"]
    by simp
  have e: "prepare ?P (?net ?h4) ?u = (Inr \<lparr>url = ?u, last_mod = Some 0\<rparr>, 1)"
    using last_modified_cases [OF d [of ?h4], of "''text/html''" ?P 0
        "new_walker ?u ''example.com''" "[]"]
    by simp
  from a b c e show ?thesis by (intro conjI) simp_all
qed

subsection \<open>The batches of \_\_group\_execute\_tasks\<close>

lemma aiotasks_all:
  "\<forall>v \<in> set ys. truthy v \<Longrightarrow> aiotasks truthy (map Some ys @ replicate k None) = ys"
proof (induction ys)
  case Nil
  show ?case by (cases k) simp_all
next
  case (Cons y ys)
  then show ?case by simp
qed

lemma length_aiotasks: "length (aiotasks truthy s) \<le> length s"
  by (induction truthy s rule: aiotasks.induct) auto

lemma zip_longest_step:
  "0 < n \<Longrightarrow> xs \<noteq> [] \<Longrightarrow>
   zip_longest n xs = (map Some (take n xs) @ replicate (n - length xs) None) # zip_longest n (drop n xs)"
  by (subst zip_longest.simps) simp

lemma zip_longest_Nil: "zip_longest n [] = []"
  by (subst zip_longest.simps) simp

lemma task_groups_Nil: "task_groups truthy n [] = []"
  by (simp add: task_groups_def zip_longest_Nil)

lemma task_groups_step:
  assumes "0 < n" "xs \<noteq> []" "\<forall>v \<in> set xs. truthy v"
  shows "task_groups truthy n xs = take n xs # task_groups truthy n (drop n xs)"
proof -
  have "\<forall>v \<in> set (take n xs). truthy v" using assms(3) by (meson in_set_takeD)
  then show ?thesis
    using assms(1,2) by (simp add: task_groups_def zip_longest_step aiotasks_all)
qed

lemma task_groups_partition:
  assumes "0 < n" "\<forall>v \<in> set xs. truthy v"
  shows "concat (task_groups truthy n xs) = xs \<and>
         (\<forall>g \<in> set (task_groups truthy n xs). g \<noteq> [] \<and> length g \<le> n)"
  using assms
proof (induction "length xs" arbitrary: xs rule: less_induct)
  case less
  show ?case
  proof (cases "xs = []")
    case True
    then show ?thesis by (simp add: task_groups_Nil)
  next
    case False
    have d: "length (drop n xs) < length xs" using False less.prems(1) by simp
    have t: "\<forall>v \<in> set (drop n xs). truthy v" using less.prems(2) by (meson in_set_dropD)
    have ih: "concat (task_groups truthy n (drop n xs)) = drop n xs \<and>
         (\<forall>g \<in> set (task_groups truthy n (drop n xs)). g \<noteq> [] \<and> length g \<le> n)"
      using less.hyps [OF d less.prems(1) t] .
    have s: "task_groups truthy n xs = take n xs # task_groups truthy n (drop n xs)"
      using task_groups_step [OF less.prems(1) False less.prems(2)] .
    have "take n xs \<noteq> []" using False less.prems(1) by simp
    then show ?thesis using ih s by simp
  qed
qed

lemma run_groups_fold:
  "\<forall>g \<in> set gs. g \<noteq> [] \<Longrightarrow> run_groups run gs st = (None, fold run gs st)"
  by (induction gs arbitrary: st) simp_all

lemma task_groups_3_2:
  "task_groups (\<lambda>v. v \<noteq> []) 2 [''a'', ''b'', ''c''] = [[''a'', ''b''], [''c'']]"
  by code_simp

lemma process_hrefs_no_empty:
  "[] \<notin> set nextlvl \<Longrightarrow> [] \<notin> set (process_hrefs domain netloc hs nextlvl)"
  by (induction domain netloc hs nextlvl rule: process_hrefs.induct)
     (auto simp: set_add_def split: sum.splits option.splits)

lemma process_no_empty:
  "[] \<notin> set (snd st) \<Longrightarrow> [] \<notin> set (snd (process net obj st))"
  by (cases st) (auto simp: process_def Let_def process_hrefs_no_empty split: prod.splits option.splits)

lemma get_group_no_empty:
  "[] \<notin> set (snd st) \<Longrightarrow> [] \<notin> set (snd (get_group net g st))"
  unfolding get_group_def
  by (induction g arbitrary: st) (simp_all add: process_no_empty)

lemma run_groups_invariant:
  "(\<And>g st. P st \<Longrightarrow> P (run g st)) \<Longrightarrow> P st \<Longrightarrow> P (snd (run_groups run gs st))"
  by (induction gs arbitrary: st) simp_all

text \<open>The URLs that the GET phase hands to the next level are never empty, and
  descriptors are always true: with a seed that is not empty, every list that
  \<open>traverse_links\<close> passes to the executor consists of true items.\<close>

lemma nextlvl_no_empty:
  "[] \<notin> set (snd (snd (group_execute_tasks (\<lambda>v. True) (get_group net) limit objs (w, []))))"
  unfolding group_execute_tasks_def
  by (rule run_groups_invariant [where P = "\<lambda>st. [] \<notin> set (snd st)"])
     (simp_all add: get_group_no_empty)

text \<open>
  C8. For every limit of at least 1 and every list of items that are true, as are all
  the items the walker passes (URLs that are not empty, descriptors), of any length: the
  groups are the consecutive pieces of the list, none empty and none longer than
  \<open>limit\<close>, together the whole list, so that every item is in exactly one group; the
  call raises nothing, and the groups run in order, each one to its end and from the
  state that the one before it left, so that never more than \<open>limit\<close> tasks are started
  together.
\<close>

theorem group_execute_tasks_partition:
  assumes "1 \<le> limit" and "\<forall>v \<in> set tasks. truthy v"
  shows "concat (task_groups truthy limit tasks) = tasks \<and>
         (\<forall>g \<in> set (task_groups truthy limit tasks). g \<noteq> [] \<and> length g \<le> limit) \<and>
         group_execute_tasks truthy run limit tasks st
           = (None, fold run (task_groups truthy limit tasks) st)"
proof -
  have n: "0 < limit" using assms(1) by simp
  have p: "concat (task_groups truthy limit tasks) = tasks \<and>
         (\<forall>g \<in> set (task_groups truthy limit tasks). g \<noteq> [] \<and> length g \<le> limit)"
    using task_groups_partition [OF n assms(2)] .
  then have "\<forall>g \<in> set (task_groups truthy limit tasks). g \<noteq> []" by blast
  then have "group_execute_tasks truthy run limit tasks st
           = (None, fold run (task_groups truthy limit tasks) st)"
    by (simp add: group_execute_tasks_def run_groups_fold)
  with p show ?thesis by blast
qed

theorem group_execute_tasks_partition_witness:
  "(1::nat) \<le> 2 \<and>
   concat (task_groups (\<lambda>v. v \<noteq> []) 2 [''a'', ''b'', ''c'']) = [''a'', ''b'', ''c''] \<and>
   task_groups (\<lambda>v. v \<noteq> []) 2 [''a'', ''b'', ''c''] = [[''a'', ''b''], [''c'']] \<and>
   group_execute_tasks (\<lambda>v. v \<noteq> []) (\<lambda>g st. st @ [g]) 2 [''a'', ''b'', ''c''] []
     = (None, [[''a'', ''b''], [''c'']])"
proof -
  have h: "\<forall>v \<in> set [''a'', ''b'', ''c'']. v \<noteq> []" by simp
  have l: "(1::nat) \<le> 2" by simp
  show ?thesis
    using group_execute_tasks_partition [OF l, of "[''a'', ''b'', ''c'']" "\<lambda>v. v \<noteq> []"
        "\<lambda>g st. st @ [g]" "[]", OF h] task_groups_3_2
    by simp
qed

subsection \<open>A crawl of depth 0\<close>

lemma add_visited_requests: "w_requests (fst (add_visited obj (w, objs))) = w_requests w"
  by (simp add: add_visited_def)

lemma head_request_coro_requests:
  "w_requests (fst (head_request_coro strptime net lvlidx u (w, objs)))
     = w_requests w @ replicate (snd (do_request net ''head'' u)) (''head'', u)"
  by (auto simp: head_request_coro_def prepare_def sent_def Let_def add_visited_requests
           split: prod.splits sum.splits option.splits)

lemma aiotasks_None: "aiotasks truthy (replicate k None) = []"
  by (cases k) simp_all

lemma task_groups_single:
  "task_groups (\<lambda>v. v \<noteq> []) SELECTOR_LIMIT [d] = (if d = [] then [[]] else [[d]])"
  by (simp add: task_groups_def SELECTOR_LIMIT_def zip_longest_step zip_longest_Nil aiotasks_None)

lemma head_phase_seed:
  "d \<noteq> [] \<Longrightarrow>
   group_execute_tasks (\<lambda>v. v \<noteq> []) (head_group strptime net lvlidx) SELECTOR_LIMIT [d]
       (new_walker d nl, [])
     = (None, head_request_coro strptime net lvlidx d (new_walker d nl, []))"
  by (simp add: group_execute_tasks_def task_groups_single head_group_def new_walker_def
        visited_urls_def)

lemma head_phase_empty_seed:
  "group_execute_tasks (\<lambda>v. v \<noteq> []) (head_group strptime net lvlidx) SELECTOR_LIMIT [[]] (w, [])
     = (Some ValueError, (w, []))"
  by (simp add: group_execute_tasks_def task_groups_single)

lemma traverse_depth_zero:
  "snd (traverse_links strptime net 0 (new_walker d nl))
     = (if d = [] then new_walker d nl
        else fst (head_request_coro strptime net 0 d (new_walker d nl, [])))"
proof (cases "d = []")
  case True
  have "traverse_links strptime net 0 (new_walker [] nl) = (Some ValueError, new_walker [] nl)"
    unfolding traverse_links_def
    by (subst traverse_loop.simps) (simp add: head_phase_empty_seed new_walker_def)
  then show ?thesis using True by simp
next
  case False
  have w: "w_domain (new_walker d nl :: 'a SitemapWalker) = d" by (simp add: new_walker_def)
  have "traverse_links strptime net 0 (new_walker d nl)
          = (None, fst (head_request_coro strptime net 0 d (new_walker d nl, [])))"
    unfolding traverse_links_def w
    by (subst traverse_loop.simps) (simp add: head_phase_seed [OF False] split: prod.splits)
  then show ?thesis using False by simp
qed

text \<open>
  C7. With depth 0 the walk of a new walker sends HEAD requests for the seed and nothing
  else: the requests are the attempts of the one HEAD request for the domain (none when
  the domain is the empty string, for which \<open>asyncio.wait\<close> raises), and no GET request
  is among them. \<open>traverse_links\<close> is a total function: the loop ends.
\<close>

theorem depth_zero_heads_seed_only:
  "w_requests (snd (traverse_links strptime net 0 (new_walker d nl)))
     = replicate (if d = [] then 0 else snd (do_request net ''head'' d)) (''head'', d) \<and>
   (\<forall>u. (''get'', u) \<notin> set (w_requests (snd (traverse_links strptime net 0 (new_walker d nl)))))"
proof -
  have r: "w_requests (snd (traverse_links strptime net 0 (new_walker d nl)))
     = replicate (if d = [] then 0 else snd (do_request net ''head'' d)) (''head'', d)"
    by (simp add: traverse_depth_zero head_request_coro_requests) (simp add: new_walker_def)
  show ?thesis unfolding r by simp
qed

subsection \<open>The visited set of a crawl\<close>

text \<open>
  C5. The claim: every descriptor added to the visited set has a URL that the validator
  accepts and whose host is the walker's netloc. A URL that comes back from its HEAD
  request unchanged is added without any check, and the links of a page are checked
  before their fragment is cut and are joined to the domain as they are. In the crawl
  below every HEAD request is answered with an HTML page at the URL asked for, and the
  seed page has the links \<open>.example.org/\<close> and \<open>?#top\<close>: the visited set ends with a
  URL on the host \<open>example.com.example.org\<close> and with \<open>http://example.com?\<close>, which the
  validator rejects, while the netloc is still \<open>example.com\<close>.
\<close>

theorem crawl_leaves_domain:
  "(case traverse_links (\<lambda>s. None :: nat option)
     (\<lambda>method u tries.
       if method = ''head'' then
         Some \<lparr>r_url = u, r_status = 200,
               r_headers = [''content-type'' \<mapsto> ''text/html''], r_hrefs = []\<rparr>
       else if u = ''http://example.com'' then
         Some \<lparr>r_url = u, r_status = 200,
               r_headers = [''content-type'' \<mapsto> ''text/html''],
               r_hrefs = [Some ''.example.org/'', Some ''?#top'']\<rparr>
       else None)
     DEPTH_LEVEL (new_walker ''http://example.com'' ''example.com'') of
     (e, w) \<Rightarrow>
       e = None \<and> w_netloc w = ''example.com'' \<and>
       visited_urls w = [''http://example.com'', ''http://example.com.example.org/'',
                         ''http://example.com?'']) \<and>
   urlparse ''http://example.com.example.org/''
     = Inr \<lparr>p_scheme = ''http'', p_netloc = ''example.com.example.org''\<rparr> \<and>
   \<not> is_url_valid ''http://example.com?''"
  by code_simp

subsection \<open>The sitemap of 50001 entries\<close>

lemma listed_all: "listed (map Some ys @ replicate k None) = ys"
proof (induction ys)
  case Nil
  show ?case by (cases k) simp_all
next
  case (Cons y ys)
  then show ?case by simp
qed

lemma listed_map_Some: "listed (map Some ys) = ys"
  using listed_all [of ys 0] by simp

lemma zip_longest_two:
  assumes "0 < n" "n < length xs" "length xs \<le> 2 * n"
  shows "zip_longest n xs
           = [map Some (take n xs), map Some (drop n xs) @ replicate (2 * n - length xs) None]"
proof -
  have x: "xs \<noteq> []" using assms(2) by auto
  have d: "drop n xs \<noteq> []" using assms(2) by simp
  have "zip_longest n xs = (map Some (take n xs) @ replicate (n - length xs) None)
          # zip_longest n (drop n xs)"
    using zip_longest_step [OF assms(1) x] .
  also have "zip_longest n (drop n xs)
      = (map Some (take n (drop n xs)) @ replicate (n - length (drop n xs)) None)
          # zip_longest n (drop n (drop n xs))"
    using zip_longest_step [OF assms(1) d] .
  finally show ?thesis using assms by (simp add: zip_longest_Nil)
qed

lemma show_nat_0: "show_nat 0 = ''0''"
  by code_simp

lemma show_nat_1: "show_nat (Suc 0) = ''1''"
  by code_simp

lemma basename_chunk0: "basename ''xml/sitemap0.xml'' = ''sitemap0.xml''"
  by code_simp

lemma basename_chunk1: "basename ''xml/sitemap1.xml'' = ''sitemap1.xml''"
  by code_simp

lemma private_generate_sitemap_chunk:
  "private_generate_sitemap strftime filename (map Some ys @ replicate k None) fs
     = (filename @ ''.xml'',
        fs\<lparr>fs_files := (fs_files fs)(filename @ ''.xml'' \<mapsto>
              Element ''urlset'' [(''xmlns'', xmlns)] None (map (xml_node strftime) ys))\<rparr>)"
  by (simp add: private_generate_sitemap_def Let_def listed_all)

lemma sitemap_chunks_two:
  "\<exists>fs'. sitemap_chunks strftime domain 0 [map Some a, map Some b @ replicate k None] (fs, [], [])
     = Inr (fs',
        [(''xml/sitemap0.xml'',
            Element ''urlset'' [(''xmlns'', xmlns)] None (map (xml_node strftime) a)),
         (''xml/sitemap1.xml'',
            Element ''urlset'' [(''xmlns'', xmlns)] None (map (xml_node strftime) b))],
        [Element ''sitemap'' [] None
           [Element ''loc'' [] (Some (domain @ ''/sitemap0.xml'')) []],
         Element ''sitemap'' [] None
           [Element ''loc'' [] (Some (domain @ ''/sitemap1.xml'')) []]]) \<and>
     fs_files fs' ''xml/sitemap0.xml'' = None \<and>
     fs_files fs' ''xml/sitemap1.xml'' = None \<and>
     fs_zips fs' = fs_zips fs"
  by (simp add: private_generate_sitemap_def Let_def listed_all listed_map_Some
        show_nat_0 show_nat_1 XML_PATH_def basename_chunk0 basename_chunk1
        del: show_nat.simps)

text \<open>
  C9. For a visited set of 50001 entries \<open>generate_sitemap\<close> returns the path of the
  archive; the archive holds the chunk \<open>xml/sitemap0.xml\<close> with the first 50000
  entries, the chunk \<open>xml/sitemap1.xml\<close> with the one entry left, and the index, whose
  two \<open>sitemap/loc\<close> children name the chunks as the domain, a slash and the file name;
  the three files themselves are gone from the disk.
\<close>

theorem generate_sitemap_two_chunks:
  assumes "length (w_visited w) = 50001"
  shows "\<exists>fs'. generate_sitemap strftime filename w fs = Inr (filename @ ''.zip'', fs') \<and>
     fs_zips fs' (filename @ ''.zip'') = Some
       [(''xml/sitemap0.xml'',
           Element ''urlset'' [(''xmlns'', xmlns)] None
             (map (xml_node strftime) (take 50000 (w_visited w)))),
        (''xml/sitemap1.xml'',
           Element ''urlset'' [(''xmlns'', xmlns)] None
             (map (xml_node strftime) (drop 50000 (w_visited w)))),
        (filename @ ''.xml'',
           Element ''sitemapindex'' [(''xmlns'', xmlns)] None
             [Element ''sitemap'' [] None
                [Element ''loc'' [] (Some (w_domain w @ ''/sitemap0.xml'')) []],
              Element ''sitemap'' [] None
                [Element ''loc'' [] (Some (w_domain w @ ''/sitemap1.xml'')) []]])] \<and>
     length (take 50000 (w_visited w)) = 50000 \<and>
     length (drop 50000 (w_visited w)) = 1 \<and>
     fs_files fs' ''xml/sitemap0.xml'' = None \<and>
     fs_files fs' ''xml/sitemap1.xml'' = None \<and>
     fs_files fs' (filename @ ''.xml'') = None"
proof -
  let ?vs = "w_visited w"
  let ?k = "2 * SITEMAP_SIZE - length ?vs"
  have p1: "0 < SITEMAP_SIZE" by (simp add: SITEMAP_SIZE_def)
  have p2: "SITEMAP_SIZE < length ?vs" using assms by (simp add: SITEMAP_SIZE_def)
  have p3: "length ?vs \<le> 2 * SITEMAP_SIZE" using assms by (simp add: SITEMAP_SIZE_def)
  have z: "zip_longest SITEMAP_SIZE ?vs
      = [map Some (take SITEMAP_SIZE ?vs), map Some (drop SITEMAP_SIZE ?vs) @ replicate ?k None]"
    using zip_longest_two [OF p1 p2 p3] .
  obtain fs1 where c: "sitemap_chunks strftime (w_domain w) 0
        [map Some (take SITEMAP_SIZE ?vs), map Some (drop SITEMAP_SIZE ?vs) @ replicate ?k None]
        (fs, [], [])
     = Inr (fs1,
        [(''xml/sitemap0.xml'',
            Element ''urlset'' [(''xmlns'', xmlns)] None
              (map (xml_node strftime) (take SITEMAP_SIZE ?vs))),
         (''xml/sitemap1.xml'',
            Element ''urlset'' [(''xmlns'', xmlns)] None
              (map (xml_node strftime) (drop SITEMAP_SIZE ?vs)))],
        [Element ''sitemap'' [] None
           [Element ''loc'' [] (Some (w_domain w @ ''/sitemap0.xml'')) []],
         Element ''sitemap'' [] None
           [Element ''loc'' [] (Some (w_domain w @ ''/sitemap1.xml'')) []]])"
    and f0: "fs_files fs1 ''xml/sitemap0.xml'' = None"
    and f1: "fs_files fs1 ''xml/sitemap1.xml'' = None"
    using sitemap_chunks_two [of strftime "w_domain w" "take SITEMAP_SIZE ?vs"
        "drop SITEMAP_SIZE ?vs" ?k fs]
    by blast
  have big: "\<not> length ?vs \<le> SITEMAP_SIZE" using p2 by simp
  have g: "generate_sitemap strftime filename w fs
     = Inr (filename @ ''.zip'',
        fs1\<lparr>fs_files := (fs_files fs1)(filename @ ''.xml'' := None),
            fs_zips := (fs_zips fs1)(filename @ ''.zip'' \<mapsto>
              [(''xml/sitemap0.xml'',
                  Element ''urlset'' [(''xmlns'', xmlns)] None
                    (map (xml_node strftime) (take SITEMAP_SIZE ?vs))),
               (''xml/sitemap1.xml'',
                  Element ''urlset'' [(''xmlns'', xmlns)] None
                    (map (xml_node strftime) (drop SITEMAP_SIZE ?vs))),
               (filename @ ''.xml'',
                  Element ''sitemapindex'' [(''xmlns'', xmlns)] None
                    [Element ''sitemap'' [] None
                       [Element ''loc'' [] (Some (w_domain w @ ''/sitemap0.xml'')) []],
                     Element ''sitemap'' [] None
                       [Element ''loc'' [] (Some (w_domain w @ ''/sitemap1.xml'')) []]])])\<rparr>)"
    unfolding generate_sitemap_def z c using big by (simp add: Let_def)
  have l0: "length (take 50000 ?vs) = 50000" using assms by simp
  have l1: "length (drop 50000 ?vs) = 1" using assms by simp
  show ?thesis
    unfolding g using f0 f1 l0 l1 by (simp add: SITEMAP_SIZE_def)
qed

theorem generate_sitemap_two_chunks_witness:
  "length (w_visited
        \<lparr>w_domain = ''http://example.com'', w_netloc = ''example.com'',
          w_visited = map (\<lambda>i. \<lparr>url = ''http://example.com/'' @ show_nat i,
                                  last_mod = None :: nat option\<rparr>) [0..<50001],
          w_requests = []\<rparr>) = 50001 \<and>
   (\<exists>fs'. generate_sitemap show_nat ''xml/abcdefghijkl'' 
        \<lparr>w_domain = ''http://example.com'', w_netloc = ''example.com'',
          w_visited = map (\<lambda>i. \<lparr>url = ''http://example.com/'' @ show_nat i,
                                  last_mod = None :: nat option\<rparr>) [0..<50001],
          w_requests = []\<rparr>
       \<lparr>fs_files = Map.empty, fs_zips = Map.empty\<rparr> = Inr (''xml/abcdefghijkl'' @ ''.zip'', fs') \<and>
     fs_zips fs' (''xml/abcdefghijkl'' @ ''.zip'') = Some
       [(''xml/sitemap0.xml'',
           Element ''urlset'' [(''xmlns'', xmlns)] None
             (map (xml_node show_nat) (take 50000 (w_visited 
        \<lparr>w_domain = ''http://example.com'', w_netloc = ''example.com'',
          w_visited = map (\<lambda>i. \<lparr>url = ''http://example.com/'' @ show_nat i,
                                  last_mod = None :: nat option\<rparr>) [0..<50001],
          w_requests = []\<rparr>)))),
        (''xml/sitemap1.xml'',
           Element ''urlset'' [(''xmlns'', xmlns)] None
             (map (xml_node show_nat) (drop 50000 (w_visited 
        \<lparr>w_domain = ''http://example.com'', w_netloc = ''example.com'',
          w_visited = map (\<lambda>i. \<lparr>url = ''http://example.com/'' @ show_nat i,
                                  last_mod = None :: nat option\<rparr>) [0..<50001],
          w_requests = []\<rparr>)))),
        (''xml/abcdefghijkl'' @ ''.xml'',
           Element ''sitemapindex'' [(''xmlns'', xmlns)] None
             [Element ''sitemap'' [] None
                [Element ''loc'' [] (Some (w_domain 
        \<lparr>w_domain = ''http://example.com'', w_netloc = ''example.com'',
          w_visited = map (\<lambda>i. \<lparr>url = ''http://example.com/'' @ show_nat i,
                                  last_mod = None :: nat option\<rparr>) [0..<50001],
          w_requests = []\<rparr> @ ''/sitemap0.xml'')) []],
              Element ''sitemap'' [] None
                [Element ''loc'' [] (Some (w_domain 
        \<lparr>w_domain = ''http://example.com'', w_netloc = ''example.com'',
          w_visited = map (\<lambda>i. \<lparr>url = ''http://example.com/'' @ show_nat i,
                                  last_mod = None :: nat option\<rparr>) [0..<50001],
          w_requests = []\<rparr> @ ''/sitemap1.xml'')) []]])] \<and>
     length (take 50000 (w_visited 
        \<lparr>w_domain = ''http://example.com'', w_netloc = ''example.com'',
          w_visited = map (\<lambda>i. \<lparr>url = ''http://example.com/'' @ show_nat i,
                                  last_mod = None :: nat option\<rparr>) [0..<50001],
          w_requests = []\<rparr>)) = 50000 \<and>
     length (drop 50000 (w_visited 
        \<lparr>w_domain = ''http://example.com'', w_netloc = ''example.com'',
          w_visited = map (\<lambda>i. \<lparr>url = ''http://example.com/'' @ show_nat i,
                                  last_mod = None :: nat option\<rparr>) [0..<50001],
          w_requests = []\<rparr>)) = 1 \<and>
     fs_files fs' ''xml/sitemap0.xml'' = None \<and>
     fs_files fs' ''xml/sitemap1.xml'' = None \<and>
     fs_files fs' (''xml/abcdefghijkl'' @ ''.xml'') = None)"
proof -
  have h: "length (w_visited
        \<lparr>w_domain = ''http://example.com'', w_netloc = ''example.com'',
          w_visited = map (\<lambda>i. \<lparr>url = ''http://example.com/'' @ show_nat i,
                                  last_mod = None :: nat option\<rparr>) [0..<50001],
          w_requests = []\<rparr>) = 50001"
    by simp
  show ?thesis
    by (rule conjI [OF h generate_sitemap_two_chunks [OF h]])
qed

subsection \<open>The matcher and the language of a pattern\<close>















subsection \<open>The language of the pattern of is\_url\_valid\<close>













































































end
